theory Spec2Isabelle
  imports Main
begin

section \<open>Python strings\<close>

text \<open>
  A Python \<^verbatim>\<open>str\<close> is modelled as a \<^typ>\<open>string\<close> whose characters are the code
  points below 256.  \<^verbatim>\<open>str.strip()\<close> removes the characters for which
  \<^verbatim>\<open>str.isspace()\<close> holds from both ends; in this range they are U+0009..U+000D,
  U+001C..U+0020, U+0085 and U+00A0.  \<^verbatim>\<open>str.lower()\<close> maps A..Z and the upper-case
  letters of U+00C0..U+00DE (all but the multiplication sign U+00D7) to the code point
  32 above, and leaves every other character of the range as it is.
\<close>

definition isspace :: "char \<Rightarrow> bool" where
  "isspace c = (c \<in> set [CHR 0x09, CHR 0x0A, CHR 0x0B, CHR 0x0C, CHR 0x0D,
                          CHR 0x1C, CHR 0x1D, CHR 0x1E, CHR 0x1F, CHR 0x20,
                          CHR 0x85, CHR 0xA0])"

definition strip :: "string \<Rightarrow> string" where
  "strip s = rev (dropWhile isspace (rev (dropWhile isspace s)))"

definition isupper :: "char \<Rightarrow> bool" where
  "isupper c = (let n = (of_char c :: nat)
                in (65 \<le> n \<and> n \<le> 90) \<or> (192 \<le> n \<and> n \<le> 222 \<and> n \<noteq> 215))"

definition lower_char :: "char \<Rightarrow> char" where
  "lower_char c = (if isupper c then char_of ((of_char c :: nat) + 32) else c)"

definition lower :: "string \<Rightarrow> string" where
  "lower s = map lower_char s"

text \<open>\<^verbatim>\<open>", ".join(xs)\<close>\<close>

fun join :: "string \<Rightarrow> string list \<Rightarrow> string" where
  "join sep [] = []"
| "join sep [x] = x"
| "join sep (x # y # ys) = x @ sep @ join sep (y # ys)"

section \<open>Exceptions\<close>

text \<open>
  The exceptions the program can meet, all of them subclasses of \<^verbatim>\<open>Exception\<close>:
  what \<^verbatim>\<open>pd.read_csv\<close> raises on a file it cannot read or parse, the
  \<^verbatim>\<open>KeyError\<close> of a column that is not there, and the \<^verbatim>\<open>OSError\<close> of a
  write that does not complete.  \<open>str_exn\<close> is \<^verbatim>\<open>str(e)\<close>.
\<close>

datatype py_exn = ParserError string | KeyError string | OSError string

fun str_exn :: "py_exn \<Rightarrow> string" where
  "str_exn (ParserError m) = m"
| "str_exn (KeyError k) = [CHR 0x27] @ k @ [CHR 0x27]"
| "str_exn (OSError m) = m"

section \<open>The pandas primitives the program calls\<close>

text \<open>
  A cell of a \<^verbatim>\<open>DataFrame\<close> of dtype \<^verbatim>\<open>str\<close>/\<^verbatim>\<open>object\<close> is a string or the
  missing value \<^verbatim>\<open>NaN\<close>.  A frame is its column labels and its rows; the cells of a
  row stand in the order of the labels.
\<close>

datatype cell = NaN | Str string

record DataFrame =
  columns :: "string list"
  rows :: "cell list list"

text \<open>
  The cell of row \<open>r\<close> under the label \<open>c\<close>, where \<open>cs\<close> are the labels of the frame: the
  first column of that label; a label the row has no cell for is missing.
\<close>

definition cell_of :: "string list \<Rightarrow> cell list \<Rightarrow> string \<Rightarrow> cell" where
  "cell_of cs r c = (case map_of (zip cs r) c of Some x \<Rightarrow> x | None \<Rightarrow> NaN)"

text \<open>\<^verbatim>\<open>pd.DataFrame(columns=cs)\<close>: the labels and no row.\<close>

definition empty_frame :: "string list \<Rightarrow> DataFrame" where
  "empty_frame cs = \<lparr>columns = cs, rows = []\<rparr>"

text \<open>\<^verbatim>\<open>df.empty\<close>: one of the two axes has length 0.\<close>

definition df_empty :: "DataFrame \<Rightarrow> bool" where
  "df_empty df = (columns df = [] \<or> rows df = [])"

text \<open>\<^verbatim>\<open>df.fillna("")\<close>\<close>

fun fill_cell :: "cell \<Rightarrow> cell" where
  "fill_cell NaN = Str []"
| "fill_cell (Str s) = Str s"

definition fillna :: "DataFrame \<Rightarrow> DataFrame" where
  "fillna df = df\<lparr>rows := map (map fill_cell) (rows df)\<rparr>"

text \<open>
  \<^verbatim>\<open>df[col] = ""\<close> for a label that is not yet a column: a new last column, the empty
  string in every row.
\<close>

definition set_column :: "DataFrame \<Rightarrow> string \<Rightarrow> DataFrame" where
  "set_column df col =
     \<lparr>columns = columns df @ [col],
      rows = map (\<lambda>r. map (cell_of (columns df) r) (columns df) @ [Str []]) (rows df)\<rparr>"

text \<open>
  \<^verbatim>\<open>df[cs]\<close> with a list of labels: the frame of those columns in that order, and a
  \<^verbatim>\<open>KeyError\<close> when a label is not a column.
\<close>

definition select_columns :: "DataFrame \<Rightarrow> string list \<Rightarrow> py_exn + DataFrame" where
  "select_columns df cs =
     (case filter (\<lambda>c. c \<notin> set (columns df)) cs of
        [] \<Rightarrow> Inr \<lparr>columns = cs, rows = map (\<lambda>r. map (cell_of (columns df) r) cs) (rows df)\<rparr>
      | c # _ \<Rightarrow> Inl (KeyError c))"

text \<open>\<^verbatim>\<open>df[c]\<close> with one label: the column as a series.\<close>

definition get_column :: "DataFrame \<Rightarrow> string \<Rightarrow> py_exn + cell list" where
  "get_column df c =
     (if c \<in> set (columns df) then Inr (map (\<lambda>r. cell_of (columns df) r c) (rows df))
      else Inl (KeyError c))"

text \<open>
  \<^verbatim>\<open>pd.DataFrame([row])\<close> for a dict \<open>row\<close> of strings, given as its items in insertion
  order: one row, the keys as labels.
\<close>

type_synonym row_dict = "(string \<times> string) list"

definition frame_of_dict :: "row_dict \<Rightarrow> DataFrame" where
  "frame_of_dict row = \<lparr>columns = map fst row, rows = [map (Str \<circ> snd) row]\<rparr>"

text \<open>
  \<^verbatim>\<open>pd.concat([a, b], ignore_index=True)\<close>: the labels of \<open>a\<close>, then those of \<open>b\<close> that
  \<open>a\<close> does not have; the rows of \<open>a\<close>, then those of \<open>b\<close>; a cell a frame has no column
  for is missing.
\<close>

definition pd_concat :: "DataFrame \<Rightarrow> DataFrame \<Rightarrow> DataFrame" where
  "pd_concat a b =
     (let cs = columns a @ filter (\<lambda>c. c \<notin> set (columns a)) (columns b)
      in \<lparr>columns = cs,
          rows = map (\<lambda>r. map (cell_of (columns a) r) cs) (rows a) @
                 map (\<lambda>r. map (cell_of (columns b) r) cs) (rows b)\<rparr>)"

text \<open>\<^verbatim>\<open>series.astype(str)\<close>: a string is itself, the missing value is \<^verbatim>\<open>"nan"\<close>.\<close>

fun astype_str :: "cell \<Rightarrow> string" where
  "astype_str NaN = ''nan''"
| "astype_str (Str s) = s"

subsection \<open>The file\<close>

text \<open>
  The backing file is absent, or \<^verbatim>\<open>pd.read_csv\<close> raises on it (an empty file, bytes
  that do not decode, a file that may not be read), or it holds a header line and data
  lines, given here as the text of their fields.

  \<^verbatim>\<open>pd.read_csv(f, dtype=str)\<close> keeps its defaults \<^verbatim>\<open>na_values=None\<close> and
  \<^verbatim>\<open>keep_default_na=True\<close>, also under \<^verbatim>\<open>dtype=str\<close>: a field whose text is empty or
  one of the default missing-value markers of pandas is read as \<^verbatim>\<open>NaN\<close>, every other
  field as its text.  A line with fewer fields than the header is filled with \<^verbatim>\<open>NaN\<close>;
  a line with more fields than the header is a tokenizing error.
\<close>

datatype csv_file = Missing | Unreadable py_exn | Table "string list" "string list list"

definition STR_NA_VALUES :: "string list" where
  "STR_NA_VALUES =
     ['''', ''#N/A'', ''#N/A N/A'', ''#NA'', ''-1.#IND'', ''-1.#QNAN'', ''-NaN'', ''-nan'',
      ''1.#IND'', ''1.#QNAN'', ''<NA>'', ''N/A'', ''NA'', ''NULL'', ''NaN'', ''None'',
      ''n/a'', ''nan'', ''null'']"

definition is_na :: "string \<Rightarrow> bool" where
  "is_na s = (s \<in> set STR_NA_VALUES)"

definition parse_cell :: "string \<Rightarrow> cell" where
  "parse_cell s = (if is_na s then NaN else Str s)"

definition pad_fields :: "nat \<Rightarrow> string list \<Rightarrow> string list" where
  "pad_fields n r = r @ replicate (n - length r) []"

definition read_csv :: "csv_file \<Rightarrow> py_exn + DataFrame" where
  "read_csv f =
     (case f of
        Missing \<Rightarrow> Inl (OSError ''No such file or directory'')
      | Unreadable e \<Rightarrow> Inl e
      | Table hdr body \<Rightarrow>
          if list_ex (\<lambda>r. length hdr < length r) body
          then Inl (ParserError ''Error tokenizing data'')
          else Inr \<lparr>columns = hdr,
                    rows = map (\<lambda>r. map parse_cell (pad_fields (length hdr) r)) body\<rparr>)"

text \<open>
  \<^verbatim>\<open>df.to_csv(f, index=False)\<close> writes the labels as the header line and one line per
  row, a missing value as the empty field (\<^verbatim>\<open>na_rep=''\<close>).
\<close>

fun render_cell :: "cell \<Rightarrow> string" where
  "render_cell NaN = []"
| "render_cell (Str s) = s"

definition csv_of :: "DataFrame \<Rightarrow> csv_file" where
  "csv_of df = Table (columns df) (map (map render_cell) (rows df))"

text \<open>
  The environment of a run: the file, and whether the operating system lets the next
  write complete.  \<open>write_fault = Some (msg, left)\<close> is a write that raises
  \<^verbatim>\<open>OSError(msg)\<close> and leaves the file as \<open>left\<close>.
\<close>

record env =
  disk :: csv_file
  write_fault :: "(string \<times> csv_file) option"

definition to_csv :: "DataFrame \<Rightarrow> env \<Rightarrow> (py_exn + unit) \<times> env" where
  "to_csv df e =
     (case write_fault e of
        None \<Rightarrow> (Inr (), e\<lparr>disk := csv_of df\<rparr>)
      | Some (msg, left) \<Rightarrow> (Inl (OSError msg), e\<lparr>disk := left\<rparr>))"

section \<open>The catalog store (data\_entry\_page.py)\<close>

definition COLUMNS :: "string list" where
  "COLUMNS =
     [''Toy #'', ''Collector #'', ''Name'', ''Series'', ''Series #'', ''Year'', ''Rarity'',
      ''Exclusive Description'', ''Color'', ''Tampo'', ''Base Color'', ''Window Color'',
      ''Interior Color'', ''Wheel Type'']"

text \<open>
  \<open>load_catalog\<close>, lines 33 to 45.  \<open>ensure_columns\<close> is the loop of lines 38 to 40,
  \<open>load_try\<close> the body of the \<^verbatim>\<open>try\<close>, and \<open>load_catalog\<close> adds the test for the
  file and the handler, which returns the empty frame for every exception.
\<close>

fun ensure_columns :: "string list \<Rightarrow> DataFrame \<Rightarrow> DataFrame" where
  "ensure_columns [] df = df"
| "ensure_columns (col # cols) df =
     ensure_columns cols (if col \<notin> set (columns df) then set_column df col else df)"

definition load_try :: "csv_file \<Rightarrow> py_exn + DataFrame" where
  "load_try f =
     (case read_csv f of
        Inl e \<Rightarrow> Inl e
      | Inr df0 \<Rightarrow> select_columns (ensure_columns COLUMNS (fillna df0)) COLUMNS)"

definition load_catalog :: "csv_file \<Rightarrow> DataFrame" where
  "load_catalog f =
     (if f \<noteq> Missing
      then (case load_try f of Inr df \<Rightarrow> df | Inl e \<Rightarrow> empty_frame COLUMNS)
      else empty_frame COLUMNS)"

text \<open>\<open>save_row\<close>, lines 47 to 50.\<close>

definition save_row :: "row_dict \<Rightarrow> env \<Rightarrow> (py_exn + unit) \<times> env" where
  "save_row row e =
     (let df = load_catalog (disk e);
          df = pd_concat df (frame_of_dict row)
      in to_csv df e)"

text \<open>
  \<open>duplicate_exists\<close>, lines 52 to 74.  \<open>strip_lower\<close> is \<^verbatim>\<open>.strip().lower()\<close>; \<open>key_mask\<close>
  is one comparison \<^verbatim>\<open>df[c].astype(str).str.strip().str.lower() == v\<close>, and
  \<open>mask_and\<close> the \<^verbatim>\<open>&\<close> of two boolean series.  A \<^verbatim>\<open>KeyError\<close> of one of the five
  columns ends the \<^verbatim>\<open>try\<close> and the handler returns \<^verbatim>\<open>False\<close>.
\<close>

definition strip_lower :: "string \<Rightarrow> string" where
  "strip_lower s = lower (strip s)"

definition key_mask :: "DataFrame \<Rightarrow> string \<Rightarrow> string \<Rightarrow> py_exn + bool list" where
  "key_mask df c v =
     (case get_column df c of
        Inl e \<Rightarrow> Inl e
      | Inr col \<Rightarrow> Inr (map (\<lambda>x. lower (strip (astype_str x)) = v) col))"

definition mask_and :: "py_exn + bool list \<Rightarrow> py_exn + bool list \<Rightarrow> py_exn + bool list" where
  "mask_and a b =
     (case a of
        Inl e \<Rightarrow> Inl e
      | Inr xs \<Rightarrow> (case b of Inl e \<Rightarrow> Inl e | Inr ys \<Rightarrow> Inr (map2 (\<and>) xs ys)))"

definition duplicate_exists ::
  "DataFrame \<Rightarrow> string \<Rightarrow> string \<Rightarrow> string \<Rightarrow> string \<Rightarrow> string \<Rightarrow> bool" where
  "duplicate_exists df toy_no name series rarity year =
     (if df_empty df then False
      else
        let t = strip_lower toy_no; n = strip_lower name; s = strip_lower series;
            r = strip_lower rarity; y = strip_lower year
        in case mask_and (mask_and (mask_and (mask_and
                  (key_mask df ''Toy #'' t) (key_mask df ''Name'' n))
                  (key_mask df ''Series'' s)) (key_mask df ''Rarity'' r))
                  (key_mask df ''Year'' y) of
             Inr m \<Rightarrow> list_ex (\<lambda>b. b) m
           | Inl e \<Rightarrow> False)"


text \<open>
  The values of the widgets of the form, lines 87 to 112, at the press of the button.
  Thirteen are \<^verbatim>\<open>st.text_input\<close>s; \<open>rarity\<close> is the \<^verbatim>\<open>st.selectbox\<close> over
  \<open>rarity_options\<close>, which returns one of its options: \<open>from_widgets\<close> says so.
\<close>

record form =
  toy_no :: string
  name :: string
  series :: string
  rarity :: string
  collector_no :: string
  series_no :: string
  year :: string
  color :: string
  tampo :: string
  base_color :: string
  window_color :: string
  interior_color :: string
  wheel_type :: string
  exclusive_desc :: string


text \<open>
  What a submission ends in, and the call that shows it to the user: the two
  \<^verbatim>\<open>st.error\<close>s of the validation (lines 124 and 126), the \<^verbatim>\<open>st.warning\<close> of a
  duplicate (line 130), the \<^verbatim>\<open>st.success\<close> of line 150 and the \<^verbatim>\<open>st.error\<close> of the
  handler of line 176.
\<close>

datatype outcome =
    ValidationError "string list"
  | ExclusiveRequired
  | DuplicateSkip
  | Success
  | SaveFailed string

datatype st_call = St_error string | St_warning string | St_success string

fun feedback :: "outcome \<Rightarrow> st_call" where
  "feedback (ValidationError missing) =
     St_error (''Missing required fields: '' @ join '', '' missing)"
| "feedback ExclusiveRequired =
     St_error (''Exclusive Description is required when Rarity is '' @ [CHR 0x27] @
               ''Exclusive'' @ [CHR 0x27] @ ''.'')"
| "feedback DuplicateSkip =
     St_warning (''This entry already exists based on Toy #, Name, Series, Rarity, '' @
                 ''and Year. No new row added.'')"
| "feedback Success = St_success ''Entry saved to CSV.''"
| "feedback (SaveFailed m) = St_error (''Failed to save entry: '' @ m)"

text \<open>
  The block under \<^verbatim>\<open>if submitted:\<close>, lines 114 to 176.  \<open>required\<close> is the dict of
  line 116 as its items in order, \<open>missing\<close> the comprehension of line 122 (\<^verbatim>\<open>not v\<close>
  of a string is \<^verbatim>\<open>v == ""\<close>), \<open>build_row\<close> the dict of line 132.  After
  \<^verbatim>\<open>st.success\<close> the block resets the session state and reruns the script
  (lines 151 to 174); both belong to the page and touch nothing on disk, and they are
  left out: the outcome \<open>Success\<close> stands for a run that reached line 150.
\<close>

definition required :: "form \<Rightarrow> (string \<times> string) list" where
  "required f =
     [(''Toy #'', strip (toy_no f)),
      (''Name'', strip (name f)),
      (''Series'', strip (series f)),
      (''Rarity'', strip (rarity f))]"

definition missing :: "form \<Rightarrow> string list" where
  "missing f = map fst (filter (\<lambda>kv. snd kv = []) (required f))"

definition build_row :: "form \<Rightarrow> row_dict" where
  "build_row f =
     [(''Toy #'', strip (toy_no f)),
      (''Collector #'', strip (collector_no f)),
      (''Name'', strip (name f)),
      (''Series'', strip (series f)),
      (''Series #'', strip (series_no f)),
      (''Year'', strip (year f)),
      (''Rarity'', strip (rarity f)),
      (''Exclusive Description'', strip (exclusive_desc f)),
      (''Color'', strip (color f)),
      (''Tampo'', strip (tampo f)),
      (''Base Color'', strip (base_color f)),
      (''Window Color'', strip (window_color f)),
      (''Interior Color'', strip (interior_color f)),
      (''Wheel Type'', strip (wheel_type f))]"

definition submitted :: "form \<Rightarrow> env \<Rightarrow> outcome \<times> env" where
  "submitted f e =
     (if missing f \<noteq> [] then (ValidationError (missing f), e)
      else if rarity f = ''Exclusive'' \<and> strip (exclusive_desc f) = []
      then (ExclusiveRequired, e)
      else
        let catalog = load_catalog (disk e)
        in if duplicate_exists catalog (toy_no f) (name f) (series f) (rarity f) (year f)
           then (DuplicateSkip, e)
           else case save_row (build_row f) e of
                  (Inr u, e') \<Rightarrow> (Success, e')
                | (Inl ex, e') \<Rightarrow> (SaveFailed (str_exn ex), e'))"

text \<open>A run of \<open>save_row\<close> over a list of rows, in order, ending at the first exception.\<close>

fun save_rows :: "row_dict list \<Rightarrow> env \<Rightarrow> (py_exn + unit) \<times> env" where
  "save_rows [] e = (Inr (), e)"
| "save_rows (row # rest) e =
     (case save_row row e of
        (Inr u, e') \<Rightarrow> save_rows rest e'
      | (Inl ex, e') \<Rightarrow> (Inl ex, e'))"

section \<open>Notions the properties are stated with\<close>

text \<open>
  The text of the field of a data line \<open>r\<close> under the header \<open>hdr\<close> in the column
  labelled \<open>c\<close>: the empty text when the header has no such label or the line is too
  short.
\<close>

definition field_text :: "string list \<Rightarrow> string list \<Rightarrow> string \<Rightarrow> string" where
  "field_text hdr r c = (case map_of (zip hdr r) c of Some s \<Rightarrow> s | None \<Rightarrow> [])"

fun is_str :: "cell \<Rightarrow> bool" where
  "is_str NaN = False"
| "is_str (Str s) = True"

text \<open>
  The field of a row of a frame as the string \<open>duplicate_exists\<close> compares, and the
  match of a row with a candidate on the five fields of the composite key.
\<close>

definition field_str :: "DataFrame \<Rightarrow> cell list \<Rightarrow> string \<Rightarrow> string" where
  "field_str df row c = astype_str (cell_of (columns df) row c)"

definition same_key ::
  "DataFrame \<Rightarrow> cell list \<Rightarrow> string \<Rightarrow> string \<Rightarrow> string \<Rightarrow> string \<Rightarrow> string \<Rightarrow> bool" where
  "same_key df row t n s r y =
     (lower (strip (field_str df row ''Toy #'')) = lower (strip t) \<and>
      lower (strip (field_str df row ''Name'')) = lower (strip n) \<and>
      lower (strip (field_str df row ''Series'')) = lower (strip s) \<and>
      lower (strip (field_str df row ''Rarity'')) = lower (strip r) \<and>
      lower (strip (field_str df row ''Year'')) = lower (strip y))"

text \<open>
  The value of a dict under a key, the empty text when the key is not set; and the cell
  a later \<open>load_catalog\<close> holds for a field that was written with the text \<open>s\<close>.
\<close>

definition dict_text :: "row_dict \<Rightarrow> string \<Rightarrow> string" where
  "dict_text row c = (case map_of row c of Some v \<Rightarrow> v | None \<Rightarrow> [])"

definition reread :: "string \<Rightarrow> cell" where
  "reread s = fill_cell (parse_cell s)"

text \<open>
  Inputs the examples run on: the form of the scenario of the specification, a form
  whose Toy \# is the text NA, and an environment with no file yet and no write fault.
\<close>

definition camaro :: form where
  "camaro =
     \<lparr>toy_no = ''GHC39'', name = ''67 Camaro'', series = ''Mainline'', rarity = ''STH'',
      collector_no = [], series_no = [], year = ''2023'', color = [], tampo = [],
      base_color = [], window_color = [], interior_color = [], wheel_type = [],
      exclusive_desc = []\<rparr>"

definition unnumbered :: form where
  "unnumbered = camaro\<lparr>toy_no := ''NA''\<rparr>"

definition fresh :: env where
  "fresh = \<lparr>disk = Missing, write_fault = None\<rparr>"

section \<open>Frames and labels\<close>

lemma COLUMNS_distinct: "distinct COLUMNS"
  by (simp add: COLUMNS_def)

lemma COLUMNS_length: "length COLUMNS = 14"
  by (simp add: COLUMNS_def)

lemma cell_of_map: "c \<in> set cs \<Longrightarrow> cell_of cs (map h cs) c = h c"
  by (simp add: cell_of_def map_of_zip_map)

lemma cell_of_absent: "c \<notin> set cs \<Longrightarrow> cell_of cs r c = NaN"
proof -
  assume "c \<notin> set cs"
  then have "c \<notin> fst ` set (zip cs r)"
    by (auto dest: set_zip_leftD)
  then have "map_of (zip cs r) c = None"
    by (simp add: map_of_eq_None_iff)
  then show ?thesis by (simp add: cell_of_def)
qed

lemma cell_of_nth:
  "distinct cs \<Longrightarrow> length r = length cs \<Longrightarrow> i < length cs \<Longrightarrow> cell_of cs r (cs ! i) = r ! i"
  by (simp add: cell_of_def map_of_zip_nth)

lemma map_cell_of_id:
  assumes "distinct cs" "length r = length cs"
  shows "map (cell_of cs r) cs = r"
  using assms by (intro nth_equalityI) (simp_all add: cell_of_nth)

lemma ensure_columns_spec:
  "\<exists>cs' g. columns (ensure_columns cols df) = cs' \<and> set cs' = set (columns df) \<union> set cols \<and>
     rows (ensure_columns cols df) = map g (rows df) \<and>
     (\<forall>r c. c \<in> set cs' \<longrightarrow>
        cell_of cs' (g r) c = (if c \<in> set (columns df) then cell_of (columns df) r c else Str []))"
proof (induction cols arbitrary: df)
  case Nil
  have "rows df = map (\<lambda>r. r) (rows df)" by simp
  then show ?case by (intro exI [of _ "columns df"] exI [of _ "\<lambda>r. r"]) simp
next
  case (Cons col cols)
  show ?case
  proof (cases "col \<in> set (columns df)")
    case True
    with Cons [of df] show ?thesis by auto
  next
    case False
    let ?h = "\<lambda>r c. if c \<in> set (columns df) then cell_of (columns df) r c else Str []"
    let ?g1 = "\<lambda>r. map (?h r) (columns df @ [col])"
    let ?df1 = "set_column df col"
    have r1: "rows ?df1 = map ?g1 (rows df)"
      using False by (simp add: set_column_def)
    have c1: "columns ?df1 = columns df @ [col]"
      by (simp add: set_column_def)
    from Cons [of ?df1] obtain cs' g2 where
      1: "columns (ensure_columns cols ?df1) = cs'" and
      2: "set cs' = set (columns ?df1) \<union> set cols" and
      3: "rows (ensure_columns cols ?df1) = map g2 (rows ?df1)" and
      4: "\<And>r c. c \<in> set cs' \<Longrightarrow>
            cell_of cs' (g2 r) c =
              (if c \<in> set (columns ?df1) then cell_of (columns ?df1) r c else Str [])"
      by blast
    have 5: "cell_of cs' (g2 (?g1 r)) c = ?h r c" if "c \<in> set cs'" for r c
    proof (cases "c \<in> set (columns df @ [col])")
      case True
      then show ?thesis
        using 4 [OF that, of "?g1 r"] cell_of_map [OF True, of "?h r"] by (simp add: c1)
    next
      case False
      then show ?thesis using 4 [OF that, of "?g1 r"] by (simp add: c1)
    qed
    have 6: "ensure_columns (col # cols) df = ensure_columns cols ?df1"
      using False by simp
    show ?thesis
      unfolding 6
      by (intro exI [of _ cs'] exI [of _ "g2 \<circ> ?g1"]) (use 1 2 3 5 in \<open>auto simp: r1 c1\<close>)
  qed
qed

lemma fill_parse_empty: "fill_cell (parse_cell []) = Str []"
  by (simp add: parse_cell_def is_na_def STR_NA_VALUES_def)

lemma zip_take_left: "zip (take (length ys) xs) ys = zip xs ys"
  by (induction xs ys rule: list_induct2') auto

lemma map_of_zip_pad:
  assumes "map_of (zip hdr (pad_fields n r)) c = Some s"
  shows "field_text hdr r c = s"
proof -
  have z: "zip hdr (pad_fields n r) =
          zip hdr r @ zip (drop (length r) hdr) (replicate (n - length r) [])"
    unfolding pad_fields_def by (simp only: zip_append2 zip_take_left)
  show ?thesis
  proof (cases "map_of (zip hdr r) c")
    case (Some v)
    with z assms show ?thesis by (simp add: map_add_def field_text_def)
  next
    case None
    with z assms
    have "map_of (zip (drop (length r) hdr) (replicate (n - length r) [])) c = Some s"
      by (simp add: map_add_def)
    then have "(c, s) \<in> set (zip (drop (length r) hdr) (replicate (n - length r) []))"
      by (rule map_of_SomeD)
    then have "s \<in> set (replicate (n - length r) [])"
      by (rule set_zip_rightD)
    then have "s = []" by simp
    with None show ?thesis by (simp add: field_text_def)
  qed
qed

lemma field_text_absent: "c \<notin> set hdr \<Longrightarrow> field_text hdr r c = []"
proof -
  assume "c \<notin> set hdr"
  then have "c \<notin> fst ` set (zip hdr r)"
    by (auto dest: set_zip_leftD)
  then have "map_of (zip hdr r) c = None"
    by (simp add: map_of_eq_None_iff)
  then show ?thesis by (simp add: field_text_def)
qed

lemma length_pad_fields: "length r \<le> n \<Longrightarrow> length (pad_fields n r) = n"
  by (simp add: pad_fields_def)

lemma fill_cell_idem: "fill_cell (fill_cell x) = fill_cell x"
  by (cases x) simp_all

lemma cell_of_read:
  assumes "length r \<le> length hdr"
  shows "cell_of hdr (map (fill_cell \<circ> parse_cell) (pad_fields (length hdr) r)) c =
           (if c \<in> set hdr then fill_cell (parse_cell (field_text hdr r c)) else NaN)"
proof (cases "c \<in> set hdr")
  case False
  then show ?thesis by (simp add: cell_of_absent)
next
  case True
  let ?p = "pad_fields (length hdr) r"
  have len: "length hdr = length ?p" using assms by (simp add: length_pad_fields)
  from True len obtain s where s: "map_of (zip hdr ?p) c = Some s"
    by (metis map_of_zip_is_Some)
  have "zip hdr (map (fill_cell \<circ> parse_cell) ?p) =
          map (\<lambda>(k, v). (k, (fill_cell \<circ> parse_cell) v)) (zip hdr ?p)"
    by (rule zip_map2)
  then have "map_of (zip hdr (map (fill_cell \<circ> parse_cell) ?p)) c =
          Some ((fill_cell \<circ> parse_cell) s)"
    using s by (simp add: map_of_map)
  moreover have "field_text hdr r c = s"
    using s by (rule map_of_zip_pad)
  ultimately show ?thesis using True by (simp add: cell_of_def)
qed

lemma load_catalog_Table:
  assumes "\<not> list_ex (\<lambda>r. length hdr < length r) body"
  shows "load_catalog (Table hdr body) =
           \<lparr>columns = COLUMNS,
            rows = map (\<lambda>r. map (\<lambda>c. fill_cell (parse_cell (field_text hdr r c))) COLUMNS) body\<rparr>"
proof -
  define raw where "raw = \<lparr>columns = hdr,
       rows = map (\<lambda>r. map parse_cell (pad_fields (length hdr) r)) body\<rparr>"
  define df0 where "df0 = fillna raw"
  have rd: "read_csv (Table hdr body) = Inr raw"
    using assms by (simp add: read_csv_def raw_def)
  have c0: "columns df0 = hdr" by (simp add: df0_def raw_def fillna_def)
  have r0: "rows df0 =
      map (\<lambda>r. map (fill_cell \<circ> parse_cell) (pad_fields (length hdr) r)) body"
    by (simp add: df0_def raw_def fillna_def)
  from ensure_columns_spec [of COLUMNS df0] obtain cs' g where
    1: "columns (ensure_columns COLUMNS df0) = cs'" and
    2: "set cs' = set hdr \<union> set COLUMNS" and
    3: "rows (ensure_columns COLUMNS df0) = map g (rows df0)" and
    4: "\<And>r c. c \<in> set cs' \<Longrightarrow>
          cell_of cs' (g r) c = (if c \<in> set hdr then cell_of hdr r c else Str [])"
    unfolding c0 by blast
  have sel: "filter (\<lambda>c. c \<notin> set cs') COLUMNS = []"
    using 2 by (auto simp: filter_empty_conv)
  have len: "length r \<le> length hdr" if "r \<in> set body" for r
    using assms that by (auto simp: list_ex_iff not_less)
  have cellv: "cell_of cs' (g (map (fill_cell \<circ> parse_cell) (pad_fields (length hdr) r))) c =
               fill_cell (parse_cell (field_text hdr r c))"
    if "r \<in> set body" "c \<in> set COLUMNS" for r c
  proof -
    have cin: "c \<in> set cs'" using 2 that by simp
    show ?thesis
      unfolding 4 [OF cin] cell_of_read [OF len [OF that(1)]]
      by (simp add: field_text_absent fill_parse_empty)
  qed
  have "load_try (Table hdr body) =
          Inr \<lparr>columns = COLUMNS,
               rows = map (\<lambda>r. map (cell_of cs' r) COLUMNS) (map g (rows df0))\<rparr>"
    by (simp add: load_try_def rd df0_def [symmetric] select_columns_def 1 3 sel del: map_map)
  also have "map (\<lambda>r. map (cell_of cs' r) COLUMNS) (map g (rows df0)) =
        map (\<lambda>r. map (\<lambda>c. fill_cell (parse_cell (field_text hdr r c))) COLUMNS) body"
    unfolding r0 by (simp add: cellv)
  finally show ?thesis by (simp add: load_catalog_def)
qed


lemma load_catalog_raises:
  "read_csv f = Inl ex \<Longrightarrow> load_catalog f = \<lparr>columns = COLUMNS, rows = []\<rparr>"
  by (simp add: load_catalog_def load_try_def empty_frame_def)

section \<open>The duplicate check, column by column and row by row\<close>

lemma map2_and_map: "map2 (\<and>) (map p xs) (map q xs) = map (\<lambda>x. p x \<and> q x) xs"
  by (induction xs) simp_all

lemma key_mask_present:
  "c \<in> set (columns df) \<Longrightarrow>
   key_mask df c v = Inr (map (\<lambda>row. lower (strip (field_str df row c)) = v) (rows df))"
  by (simp add: key_mask_def get_column_def field_str_def)

lemma mask_and_Inr:
  "mask_and (Inr (map p xs)) (Inr (map q xs)) = Inr (map (\<lambda>x. p x \<and> q x) xs)"
  by (simp add: mask_and_def map2_and_map)

lemma duplicate_exists_rows:
  assumes "set [''Toy #'', ''Name'', ''Series'', ''Rarity'', ''Year''] \<subseteq> set (columns df)"
  shows "duplicate_exists df t n s r y \<longleftrightarrow> (\<exists>row \<in> set (rows df). same_key df row t n s r y)"
proof (cases "rows df = []")
  case True
  then show ?thesis by (simp add: duplicate_exists_def df_empty_def)
next
  case False
  from assms have "columns df \<noteq> []" by auto
  with False have ne: "\<not> df_empty df" by (simp add: df_empty_def)
  from assms have k: "''Toy #'' \<in> set (columns df)" "''Name'' \<in> set (columns df)"
    "''Series'' \<in> set (columns df)" "''Rarity'' \<in> set (columns df)"
    "''Year'' \<in> set (columns df)"
    by simp_all
  show ?thesis
    unfolding duplicate_exists_def Let_def strip_lower_def
      key_mask_present [OF k(1)] key_mask_present [OF k(2)] key_mask_present [OF k(3)]
      key_mask_present [OF k(4)] key_mask_present [OF k(5)] mask_and_Inr
    using ne by (simp add: list_ex_iff same_key_def)
qed

section \<open>Writing and reading back\<close>

lemma reread_eq: "reread s = Str (if is_na s then [] else s)"
  by (simp add: reread_def parse_cell_def)

lemma reread_render_reread: "reread (render_cell (reread s)) = reread s"
  by (simp add: reread_eq is_na_def STR_NA_VALUES_def)

lemma field_text_map: "c \<in> set cs \<Longrightarrow> field_text cs (map k cs) c = k c"
  by (simp add: field_text_def map_of_zip_map)

lemma frame_of_dict_cell:
  "cell_of (map fst row) (map (Str \<circ> snd) row) c =
     (case map_of row c of Some v \<Rightarrow> Str v | None \<Rightarrow> NaN)"
proof -
  have "zip (map fst row) (map (Str \<circ> snd) row) = map (\<lambda>(k, v). (k, Str v)) row"
    by (induction row) auto
  then show ?thesis
    by (simp add: cell_of_def map_of_map split: option.splits)
qed

lemma load_catalog_columns: "columns (load_catalog f) = COLUMNS"
proof (cases "read_csv f")
  case (Inl ex)
  then show ?thesis by (simp add: load_catalog_raises)
next
  case (Inr raw)
  then obtain hdr body where f: "f = Table hdr body"
    by (cases f) (simp_all add: read_csv_def)
  with Inr have "\<not> list_ex (\<lambda>r. length hdr < length r) body"
    by (auto simp: read_csv_def split: if_splits)
  then show ?thesis
    unfolding f by (simp add: load_catalog_Table)
qed

lemma load_catalog_rows_clean:
  assumes "r \<in> set (rows (load_catalog f))"
  shows "length r = length COLUMNS \<and> map (reread \<circ> render_cell) r = r"
proof (cases "read_csv f")
  case (Inl ex)
  with assms show ?thesis by (simp add: load_catalog_raises)
next
  case (Inr raw)
  then obtain hdr body where f: "f = Table hdr body"
    by (cases f) (simp_all add: read_csv_def)
  with Inr have "\<not> list_ex (\<lambda>r. length hdr < length r) body"
    by (auto simp: read_csv_def split: if_splits)
  with assms obtain r0 where "r = map (\<lambda>c. reread (field_text hdr r0 c)) COLUMNS"
    unfolding f by (auto simp: load_catalog_Table reread_def)
  then show ?thesis by (simp add: reread_render_reread)
qed

lemma save_row_load:
  assumes "write_fault e = None"
  shows "\<exists>e'. save_row row e = (Inr (), e') \<and> write_fault e' = None \<and>
           load_catalog (disk e') =
             \<lparr>columns = COLUMNS,
              rows = rows (load_catalog (disk e)) @ [map (\<lambda>c. reread (dict_text row c)) COLUMNS]\<rparr>"
proof -
  define df where "df = load_catalog (disk e)"
  define cs where "cs = COLUMNS @ filter (\<lambda>c. c \<notin> set COLUMNS) (map fst row)"
  define new where "new = (\<lambda>c. case map_of row c of Some v \<Rightarrow> Str v | None \<Rightarrow> NaN)"
  define A where "A = (\<lambda>r. map (render_cell \<circ> cell_of COLUMNS r) cs)"
  define B where "B = map (render_cell \<circ> new) cs"
  define F where "F = (\<lambda>r. map (\<lambda>c. fill_cell (parse_cell (field_text cs r c))) COLUMNS)"
  define body where "body = map A (rows df) @ [B]"
  have cdf: "columns df = COLUMNS" by (simp add: df_def load_catalog_columns)
  have cc: "pd_concat df (frame_of_dict row) =
      \<lparr>columns = cs, rows = map (\<lambda>r. map (cell_of COLUMNS r) cs) (rows df) @ [map new cs]\<rparr>"
    by (simp add: pd_concat_def frame_of_dict_def cdf cs_def [symmetric] Let_def
        frame_of_dict_cell new_def)
  have csv: "csv_of (pd_concat df (frame_of_dict row)) = Table cs body"
    by (simp add: cc csv_of_def body_def A_def B_def)
  have sr: "save_row row e = (Inr (), e\<lparr>disk := Table cs body\<rparr>)"
    using assms by (simp add: save_row_def to_csv_def df_def [symmetric] csv)
  have ok: "\<not> list_ex (\<lambda>r. length cs < length r) body"
    by (auto simp: list_ex_iff body_def A_def B_def)
  have sub: "c \<in> set cs" if "c \<in> set COLUMNS" for c
    using that by (simp add: cs_def)
  have old: "F (A r) = r" if "r \<in> set (rows df)" for r
  proof -
    from that have len: "length r = length COLUMNS" and cl: "map (reread \<circ> render_cell) r = r"
      using load_catalog_rows_clean [of r "disk e"] by (simp_all add: df_def)
    have "F (A r) = map (\<lambda>c. (reread \<circ> render_cell) (cell_of COLUMNS r c)) COLUMNS"
      by (simp add: F_def A_def field_text_map sub reread_def)
    also have "\<dots> = map (reread \<circ> render_cell) (map (cell_of COLUMNS r) COLUMNS)"
      by simp
    also have "\<dots> = r"
      by (simp only: map_cell_of_id [OF COLUMNS_distinct len] cl)
    finally show ?thesis .
  qed
  have newr: "F B = map (\<lambda>c. reread (dict_text row c)) COLUMNS"
    by (auto simp: F_def B_def field_text_map sub reread_def dict_text_def new_def
        split: option.splits)
  have "map F body = map (\<lambda>r. F (A r)) (rows df) @ [F B]"
    by (simp add: body_def)
  also have "map (\<lambda>r. F (A r)) (rows df) = rows df"
    by (rule map_idI) (rule old)
  finally have "map F body = rows df @ [map (\<lambda>c. reread (dict_text row c)) COLUMNS]"
    by (simp only: newr)
  then have "load_catalog (Table cs body) =
      \<lparr>columns = COLUMNS, rows = rows df @ [map (\<lambda>c. reread (dict_text row c)) COLUMNS]\<rparr>"
    unfolding load_catalog_Table [OF ok] F_def by simp
  then show ?thesis
    using assms by (simp add: sr df_def)
qed

lemma save_rows_load:
  assumes "write_fault e = None"
  shows "\<exists>e'. save_rows rs e = (Inr (), e') \<and> write_fault e' = None \<and>
           load_catalog (disk e') =
             \<lparr>columns = COLUMNS,
              rows = rows (load_catalog (disk e)) @
                     map (\<lambda>row. map (\<lambda>c. reread (dict_text row c)) COLUMNS) rs\<rparr>"
  using assms
proof (induction rs arbitrary: e)
  case Nil
  have "load_catalog (disk e) = \<lparr>columns = columns (load_catalog (disk e)),
      rows = rows (load_catalog (disk e))\<rparr>"
    by simp
  with Nil show ?case by (simp add: load_catalog_columns)
next
  case (Cons row rs)
  from save_row_load [OF Cons.prems, of row] obtain e1 where
    1: "save_row row e = (Inr (), e1)" and 2: "write_fault e1 = None" and
    3: "load_catalog (disk e1) =
          \<lparr>columns = COLUMNS,
           rows = rows (load_catalog (disk e)) @ [map (\<lambda>c. reread (dict_text row c)) COLUMNS]\<rparr>"
    by blast
  from Cons.IH [OF 2] obtain e' where
    4: "save_rows rs e1 = (Inr (), e')" and 5: "write_fault e' = None" and
    6: "load_catalog (disk e') =
          \<lparr>columns = COLUMNS,
           rows = rows (load_catalog (disk e1)) @
                  map (\<lambda>row. map (\<lambda>c. reread (dict_text row c)) COLUMNS) rs\<rparr>"
    by blast
  show ?case
    by (rule exI [of _ e']) (simp add: 1 4 5 6 3)
qed

section \<open>Validation\<close>

lemma strip_Exclusive: "strip ''Exclusive'' = ''Exclusive''"
  by (simp add: strip_def isspace_def)

lemma missing_empty_iff:
  "missing f = [] \<longleftrightarrow> strip (toy_no f) \<noteq> [] \<and> strip (name f) \<noteq> [] \<and> strip (series f) \<noteq> [] \<and>
           strip (rarity f) \<noteq> []"
  by (simp add: missing_def required_def)



lemma build_row_Rarity: "dict_text (build_row f) ''Rarity'' = strip (rarity f)"
  by (simp add: dict_text_def build_row_def)

lemma strip_not_space_hd: "strip s \<noteq> [] \<Longrightarrow> \<not> isspace (hd (strip s))"
proof -
  assume ne: "strip s \<noteq> []"
  define a where "a = dropWhile isspace s"
  have "rev a = takeWhile isspace (rev a) @ dropWhile isspace (rev a)"
    by simp
  then have "a = rev (dropWhile isspace (rev a)) @ rev (takeWhile isspace (rev a))"
    by (metis rev_append rev_rev_ident)
  then have a: "a = strip s @ rev (takeWhile isspace (rev a))"
    by (simp add: strip_def a_def)
  with ne have "hd a = hd (strip s)" by (metis hd_append2)
  moreover from a ne have "a \<noteq> []" by auto
  then have "\<not> isspace (hd a)" unfolding a_def by (rule hd_dropWhile)
  ultimately show ?thesis by simp
qed

lemma strip_idem: "strip (strip s) = strip s"
proof -
  have 1: "dropWhile isspace (strip s) = strip s"
    using strip_not_space_hd [of s] by (auto simp: dropWhile_eq_self_iff)
  have "rev (strip s) = dropWhile isspace (rev (dropWhile isspace s))"
    by (simp add: strip_def)
  then have "dropWhile isspace (rev (strip s)) = rev (strip s)"
    by simp
  then have "strip (strip s) = rev (rev (strip s))"
    unfolding strip_def [of "strip s"] 1 by simp
  then show ?thesis by simp
qed

lemma build_row_keys:
  "dict_text (build_row f) ''Toy #'' = strip (toy_no f)"
  "dict_text (build_row f) ''Name'' = strip (name f)"
  "dict_text (build_row f) ''Series'' = strip (series f)"
  "dict_text (build_row f) ''Year'' = strip (year f)"
  by (simp_all add: dict_text_def build_row_def)

lemma field_str_reread:
  assumes "is_na v \<longrightarrow> v = []"
  shows "astype_str (reread v) = v"
  using assms by (auto simp: reread_eq)

text \<open>
  A submission that passes the validation, is no duplicate, is written, and whose five
  key fields are none of the missing-value markers of pandas, is a duplicate from then
  on: the same form submitted again is skipped and the catalog has grown by one row.
\<close>

lemma resubmission_skipped:
  assumes "write_fault e = None"
    and "missing f = []"
    and "\<not> (rarity f = ''Exclusive'' \<and> strip (exclusive_desc f) = [])"
    and "\<not> duplicate_exists (load_catalog (disk e)) (toy_no f) (name f) (series f) (rarity f) (year f)"
    and "list_all (\<lambda>v. is_na v \<longrightarrow> v = [])
           [strip (toy_no f), strip (name f), strip (series f), strip (rarity f), strip (year f)]"
  shows "\<exists>e1. submitted f e = (Success, e1) \<and> submitted f e1 = (DuplicateSkip, e1) \<and>
           length (rows (load_catalog (disk e1))) = length (rows (load_catalog (disk e))) + 1"
proof -
  define new where "new = map (\<lambda>c. reread (dict_text (build_row f) c)) COLUMNS"
  from save_row_load [OF assms(1), of "build_row f"] obtain e1 where
    1: "save_row (build_row f) e = (Inr (), e1)" and
    2: "load_catalog (disk e1) =
          \<lparr>columns = COLUMNS, rows = rows (load_catalog (disk e)) @ [new]\<rparr>"
    unfolding new_def by blast
  have first: "submitted f e = (Success, e1)"
    using assms(2-4) 1 by (simp add: submitted_def)
  let ?df = "load_catalog (disk e1)"
  have keys: "set [''Toy #'', ''Name'', ''Series'', ''Rarity'', ''Year''] \<subseteq> set (columns ?df)"
    by (simp add: load_catalog_columns) (simp add: COLUMNS_def)
  have k: "''Toy #'' \<in> set COLUMNS" "''Name'' \<in> set COLUMNS" "''Series'' \<in> set COLUMNS"
    "''Rarity'' \<in> set COLUMNS" "''Year'' \<in> set COLUMNS"
    by (simp_all add: COLUMNS_def)
  have "same_key ?df new (toy_no f) (name f) (series f) (rarity f) (year f)"
    using assms(5)
    by (simp add: same_key_def field_str_def load_catalog_columns new_def cell_of_map k
        build_row_keys build_row_Rarity field_str_reread strip_idem)
  moreover have "new \<in> set (rows ?df)" by (simp add: 2)
  ultimately have "duplicate_exists ?df (toy_no f) (name f) (series f) (rarity f) (year f)"
    unfolding duplicate_exists_rows [OF keys] by blast
  then have second: "submitted f e1 = (DuplicateSkip, e1)"
    using assms(2,3) by (simp add: submitted_def)
  show ?thesis
    by (rule exI [of _ e1]) (simp add: first second 2)
qed

section \<open>Loading\<close>







section \<open>The duplicate check\<close>

text \<open>
  C3.  On a catalog that has the five key columns, as every loaded catalog has,
  \<open>duplicate_exists\<close> is true exactly when some row agrees with the candidate on
  Toy \#, Name, Series, Rarity and Year after \<^verbatim>\<open>strip\<close> and \<^verbatim>\<open>lower\<close>; on a catalog
  with no row it is false for every candidate.
\<close>

theorem duplicate_exists_iff:
  assumes "set [''Toy #'', ''Name'', ''Series'', ''Rarity'', ''Year''] \<subseteq> set (columns df)"
  shows "(duplicate_exists df t n s r y \<longleftrightarrow>
            (\<exists>row \<in> set (rows df). same_key df row t n s r y)) \<and>
         (rows df = [] \<longrightarrow> \<not> duplicate_exists df t n s r y)"
  using duplicate_exists_rows [OF assms] by simp

theorem duplicate_exists_iff_witness:
  "set [''Toy #'', ''Name'', ''Series'', ''Rarity'', ''Year'']
     \<subseteq> set (columns (load_catalog (Table [''Toy #'', ''Name'', ''Series'', ''Rarity'', ''Year'']
              [[''HW01'', ''Camaro'', ''Mainline'', ''STH'', ''2023'']]))) \<and>
   duplicate_exists
     (load_catalog (Table [''Toy #'', ''Name'', ''Series'', ''Rarity'', ''Year'']
              [[''HW01'', ''Camaro'', ''Mainline'', ''STH'', ''2023'']]))
     '' hw01 '' ''Camaro'' ''Mainline'' ''STH'' ''2023'' \<and>
   (\<exists>row \<in> set (rows (load_catalog (Table [''Toy #'', ''Name'', ''Series'', ''Rarity'', ''Year'']
              [[''HW01'', ''Camaro'', ''Mainline'', ''STH'', ''2023'']]))).
      same_key (load_catalog (Table [''Toy #'', ''Name'', ''Series'', ''Rarity'', ''Year'']
              [[''HW01'', ''Camaro'', ''Mainline'', ''STH'', ''2023'']]))
        row '' hw01 '' ''Camaro'' ''Mainline'' ''STH'' ''2023'')"
proof -
  let ?df = "load_catalog (Table [''Toy #'', ''Name'', ''Series'', ''Rarity'', ''Year'']
              [[''HW01'', ''Camaro'', ''Mainline'', ''STH'', ''2023'']])"
  have h: "set [''Toy #'', ''Name'', ''Series'', ''Rarity'', ''Year''] \<subseteq> set (columns ?df)"
    by (simp add: load_catalog_columns) (simp add: COLUMNS_def)
  have d: "duplicate_exists ?df '' hw01 '' ''Camaro'' ''Mainline'' ''STH'' ''2023''"
    by code_simp
  from duplicate_exists_iff [OF h] d h show ?thesis by blast
qed

section \<open>The submission\<close>

text \<open>
  C4.  When one of Toy \#, Name, Series and Rarity is empty after trimming, the
  submission ends in the validation error that lists exactly the empty ones, in the
  order of the form, and the environment, the file with it, is as before.
\<close>

theorem missing_required_rejected:
  assumes "strip (toy_no f) = [] \<or> strip (name f) = [] \<or> strip (series f) = [] \<or>
           strip (rarity f) = []"
  shows "submitted f e = (ValidationError (missing f), e) \<and>
         missing f =
           (if strip (toy_no f) = [] then [''Toy #''] else []) @
           (if strip (name f) = [] then [''Name''] else []) @
           (if strip (series f) = [] then [''Series''] else []) @
           (if strip (rarity f) = [] then [''Rarity''] else [])"
proof -
  have m: "missing f =
           (if strip (toy_no f) = [] then [''Toy #''] else []) @
           (if strip (name f) = [] then [''Name''] else []) @
           (if strip (series f) = [] then [''Series''] else []) @
           (if strip (rarity f) = [] then [''Rarity''] else [])"
    by (simp add: missing_def required_def)
  with assms have "missing f \<noteq> []" by auto
  then show ?thesis using m by (simp add: submitted_def)
qed

theorem missing_required_rejected_witness:
  "submitted (camaro\<lparr>toy_no := [], name := ''X'', series := ''Y'', rarity := ''Normal''\<rparr>) fresh
     = (ValidationError [''Toy #''], fresh)"
proof -
  let ?f = "camaro\<lparr>toy_no := [], name := ''X'', series := ''Y'', rarity := ''Normal''\<rparr>"
  have h: "strip (toy_no ?f) = [] \<or> strip (name ?f) = [] \<or> strip (series ?f) = [] \<or>
           strip (rarity ?f) = []"
    by (simp add: strip_def)
  have s: "strip (toy_no ?f) = []" "strip (name ?f) \<noteq> []" "strip (series ?f) \<noteq> []"
    "strip (rarity ?f) \<noteq> []"
    by (simp_all add: strip_def isspace_def)
  from missing_required_rejected [OF h, of fresh] show ?thesis
    by (simp only: s if_True if_False not_False_eq_True append_Nil append_Nil2 simp_thms)
qed

text \<open>
  C5.  With the other required fields filled, Rarity \<^verbatim>\<open>"Exclusive"\<close> and an Exclusive
  Description that is empty after trimming, the submission ends in the
  exclusive-description error whatever the other fields hold, and the environment is
  as before.
\<close>

theorem exclusive_description_required:
  assumes "strip (toy_no f) \<noteq> []" "strip (name f) \<noteq> []" "strip (series f) \<noteq> []"
    and "rarity f = ''Exclusive''" and "strip (exclusive_desc f) = []"
  shows "submitted f e = (ExclusiveRequired, e)"
proof -
  have "missing f = []"
    using assms by (simp add: missing_empty_iff strip_Exclusive)
  with assms(4,5) show ?thesis by (simp add: submitted_def)
qed

theorem exclusive_description_required_witness:
  "submitted (camaro\<lparr>rarity := ''Exclusive'', exclusive_desc := ''  ''\<rparr>) fresh
     = (ExclusiveRequired, fresh)"
proof -
  let ?f = "camaro\<lparr>rarity := ''Exclusive'', exclusive_desc := ''  ''\<rparr>"
  have h: "strip (toy_no ?f) \<noteq> []" "strip (name ?f) \<noteq> []" "strip (series ?f) \<noteq> []"
    "rarity ?f = ''Exclusive''" "strip (exclusive_desc ?f) = []"
    by (simp_all add: camaro_def strip_def isspace_def)
  from exclusive_description_required [OF h] show ?thesis .
qed

text \<open>
  C9.  When a submission passes the validation and the duplicate check and the write
  raises, the submission ends in the outcome of the handler of line 175: the user is
  shown \<^verbatim>\<open>st.error("Failed to save entry: ...")\<close> with the text of the exception, and
  the outcome is not \<open>Success\<close>.
\<close>

theorem write_failure_surfaced:
  assumes "missing f = []"
    and "\<not> (rarity f = ''Exclusive'' \<and> strip (exclusive_desc f) = [])"
    and "\<not> duplicate_exists (load_catalog (disk e)) (toy_no f) (name f) (series f) (rarity f) (year f)"
    and "write_fault e = Some (msg, left)"
  shows "submitted f e = (SaveFailed msg, e\<lparr>disk := left\<rparr>) \<and>
         feedback (fst (submitted f e)) = St_error (''Failed to save entry: '' @ msg) \<and>
         fst (submitted f e) \<noteq> Success"
proof -
  have "save_row (build_row f) e = (Inl (OSError msg), e\<lparr>disk := left\<rparr>)"
    using assms(4) by (simp add: save_row_def to_csv_def)
  with assms(1-3) have "submitted f e = (SaveFailed msg, e\<lparr>disk := left\<rparr>)"
    by (simp add: submitted_def)
  then show ?thesis by simp
qed

theorem write_failure_surfaced_witness:
  "submitted camaro \<lparr>disk = Missing, write_fault = Some (''Permission denied'', Missing)\<rparr>
     = (SaveFailed ''Permission denied'',
        \<lparr>disk = Missing, write_fault = Some (''Permission denied'', Missing)\<rparr>)"
proof -
  let ?e = "\<lparr>disk = Missing, write_fault = Some (''Permission denied'', Missing)\<rparr>"
  have 1: "missing camaro = []"
    by (simp add: missing_def required_def camaro_def strip_def isspace_def)
  have 2: "\<not> (rarity camaro = ''Exclusive'' \<and> strip (exclusive_desc camaro) = [])"
    by (simp add: camaro_def)
  have 3: "\<not> duplicate_exists (load_catalog (disk ?e)) (toy_no camaro) (name camaro)
              (series camaro) (rarity camaro) (year camaro)"
    by (simp add: load_catalog_def empty_frame_def duplicate_exists_def df_empty_def)
  have 4: "write_fault ?e = Some (''Permission denied'', Missing)"
    by simp
  from write_failure_surfaced [OF 1 2 3 4] show ?thesis by simp
qed

section \<open>Saving\<close>

text \<open>
  C2.  From a catalog with no row and with writes that complete, saving \<open>N\<close> rows with
  \<open>save_row\<close> and loading gives exactly \<open>N\<close> rows, under the 14 declared columns in
  their order; every row has 14 cells, all of them strings, the empty string where the
  dict sets no value (and where the value it sets is read back as missing).
\<close>

theorem save_rows_then_load:
  assumes "write_fault e = None" and "rows (load_catalog (disk e)) = []"
  shows "\<exists>e'. save_rows rs e = (Inr (), e') \<and>
           columns (load_catalog (disk e')) = COLUMNS \<and>
           length (rows (load_catalog (disk e'))) = length rs \<and>
           list_all (\<lambda>r. length r = 14 \<and> list_all is_str r) (rows (load_catalog (disk e'))) \<and>
           rows (load_catalog (disk e')) =
             map (\<lambda>row. map (\<lambda>c. Str (case map_of row c of
                                         None \<Rightarrow> []
                                       | Some v \<Rightarrow> if is_na v then [] else v)) COLUMNS) rs"
proof -
  from save_rows_load [OF assms(1), of rs] obtain e' where
    1: "save_rows rs e = (Inr (), e')" and
    2: "load_catalog (disk e') =
          \<lparr>columns = COLUMNS,
           rows = rows (load_catalog (disk e)) @
                  map (\<lambda>row. map (\<lambda>c. reread (dict_text row c)) COLUMNS) rs\<rparr>"
    by blast
  have 3: "reread (dict_text row c) =
             Str (case map_of row c of None \<Rightarrow> [] | Some v \<Rightarrow> if is_na v then [] else v)"
    for row c
    by (simp add: reread_eq dict_text_def is_na_def STR_NA_VALUES_def split: option.splits)
  show ?thesis
    by (rule exI [of _ e'])
      (simp add: 1 2 assms(2) 3 list_all_iff COLUMNS_length)
qed

theorem save_rows_then_load_witness:
  "write_fault fresh = None \<and> rows (load_catalog (disk fresh)) = [] \<and>
   (\<exists>e'. save_rows [build_row camaro, [(''Toy #'', ''HW02''), (''Color'', ''Red'')]] fresh
            = (Inr (), e') \<and>
      rows (load_catalog (disk e')) =
        [[Str ''GHC39'', Str [], Str ''67 Camaro'', Str ''Mainline'', Str [], Str ''2023'',
          Str ''STH'', Str [], Str [], Str [], Str [], Str [], Str [], Str []],
         [Str ''HW02'', Str [], Str [], Str [], Str [], Str [], Str [], Str [], Str ''Red'',
          Str [], Str [], Str [], Str [], Str []]])"
proof -
  let ?rs = "[build_row camaro, [(''Toy #'', ''HW02''), (''Color'', ''Red'')]]"
  have 1: "write_fault fresh = None" by (simp add: fresh_def)
  have 2: "rows (load_catalog (disk fresh)) = []"
    by (simp add: fresh_def load_catalog_def empty_frame_def)
  have 3: "map (\<lambda>row. map (\<lambda>c. Str (case map_of row c of
                                         None \<Rightarrow> []
                                       | Some v \<Rightarrow> if is_na v then [] else v)) COLUMNS) ?rs =
        [[Str ''GHC39'', Str [], Str ''67 Camaro'', Str ''Mainline'', Str [], Str ''2023'',
          Str ''STH'', Str [], Str [], Str [], Str [], Str [], Str [], Str []],
         [Str ''HW02'', Str [], Str [], Str [], Str [], Str [], Str [], Str [], Str ''Red'',
          Str [], Str [], Str [], Str [], Str []]]"
    by code_simp
  from save_rows_then_load [OF 1 2, of ?rs] obtain e' where
    "save_rows ?rs fresh = (Inr (), e')" and
    "rows (load_catalog (disk e')) =
       map (\<lambda>row. map (\<lambda>c. Str (case map_of row c of
                                         None \<Rightarrow> []
                                       | Some v \<Rightarrow> if is_na v then [] else v)) COLUMNS) ?rs"
    by blast
  with 1 2 show ?thesis by (simp only: 3) blast
qed



section \<open>Submitting the same form twice\<close>

text \<open>
  C1.  The form \<open>unnumbered\<close> has the Toy \# NA and is otherwise the form of the
  scenario.  Submitted twice to a catalog with no file, it is saved both times: the
  first run writes the text NA, the second reads that field as missing, fills it with
  the empty string and finds no row whose Toy \# is \<^verbatim>\<open>"na"\<close>.  The catalog ends with
  two rows.
\<close>

theorem na_toy_number_saved_twice:
  "fst (submitted unnumbered fresh) = Success \<and>
   fst (submitted unnumbered (snd (submitted unnumbered fresh))) = Success \<and>
   length (rows (load_catalog (disk (snd (submitted unnumbered
              (snd (submitted unnumbered fresh))))))) = 2"
  by code_simp

end
